theory Spec2Isabelle
  imports Complex_Main
begin

section \<open>Tax Deductible Tracker: record store, expense ledger, queries\<close>

text \<open>
  A shallow embedding of \<^verbatim>\<open>scripts/database.js\<close> (class Database over IndexedDB),
  \<^verbatim>\<open>scripts/expenses.js\<close> (class ExpenseManager; the filter is the one of the later
  revision of that file, with year, quarter, dateFrom and dateTo), the dashboard's
  groupByMonth and the file import of \<^verbatim>\<open>scripts/backup.js\<close>.

  Conventions of the embedding:
  \<^item> a JavaScript number is an exact rational; a property that may be missing from an
    object is an \<open>option\<close>, \<open>None\<close> standing for "absent, reads as undefined" (a
    property holding null is not told apart from an absent one);
  \<^item> a string is a \<open>char list\<close>; the strings of a draft under validation are kept as
    their UTF-16 code units, which is what \<^verbatim>\<open>trim\<close> reads;
  \<^item> every \<^verbatim>\<open>await\<close>ed store operation is a function from the database to a result and
    the database afterwards; a rejected promise or a thrown Error is \<open>Inl\<close>;
  \<^item> \<^verbatim>\<open>new Date().toISOString()\<close> reads a clock: the \<open>n\<close>-th reading of a run is
    \<open>clk n\<close>, and the database state counts the readings made so far.
\<close>

subsection \<open>Errors\<close>

datatype error =
    NotFound int
  | ConstraintError
  | DataError
  | InvalidBackupFormat
  | NoFileSelected
  | ImportCancelled
  | SyntaxError

subsection \<open>Data model\<close>

record receipt =
  receipt_name :: string
  receipt_type :: string
  receipt_size :: nat
  receipt_data :: string
  uploadedAt :: string

record expense =
  expense_id :: "int option"
  datePaid :: "string option"
  merchant :: "string option"
  expenseDetails :: "string option"
  expenseCategory :: "string option"
  expenseAmount :: "rat option"
  percentUsedForWork :: "rat option"
  deductible :: "rat option"
  expense_notes :: "string option"
  receiptFiles :: "receipt list option"
  createdAt :: "string option"
  updatedAt :: "string option"

record category =
  category_id :: "int option"
  name :: string
  color :: string
  icon :: string

text \<open>
  The three object stores of \<^verbatim>\<open>Database.init\<close>. \<open>expenses\<close> and \<open>categories\<close> have
  \<^verbatim>\<open>keyPath: 'id', autoIncrement: true\<close>: rows are kept in ascending key order (the order
  of \<^verbatim>\<open>getAll\<close>), and each store has a key generator. \<open>categories\<close> has the unique
  index on \<open>name\<close>. \<open>settings\<close> is keyed by \<open>key\<close>.
\<close>

record db =
  expenses :: "(int \<times> expense) list"
  expenseKeyGen :: int
  categories :: "(int \<times> category) list"
  categoryKeyGen :: int
  settings :: "(string \<times> string) list"
  ticks :: nat

type_synonym clock = "nat \<Rightarrow> string"

definition new_Date_toISOString :: "clock \<Rightarrow> db \<Rightarrow> string \<times> db" where
  "new_Date_toISOString clk d = (clk (ticks d), d\<lparr>ticks := Suc (ticks d)\<rparr>)"

subsection \<open>Object stores\<close>

fun upsert :: "int \<Rightarrow> 'r \<Rightarrow> (int \<times> 'r) list \<Rightarrow> (int \<times> 'r) list" where
  "upsert k r [] = [(k, r)]"
| "upsert k r ((k', r') # rows) =
     (if k = k' then (k, r) # rows
      else if k < k' then (k, r) # (k', r') # rows
      else (k', r') # upsert k r rows)"

definition delete_key :: "int \<Rightarrow> (int \<times> 'r) list \<Rightarrow> (int \<times> 'r) list" where
  "delete_key k rows = filter (\<lambda>row. fst row \<noteq> k) rows"

text \<open>
  \<^verbatim>\<open>store.add(value)\<close> on the expenses store. A value that carries an \<open>id\<close> is stored
  under it and moves the key generator past it; a value without one gets the generator's
  number written into its \<open>id\<close>. A key that is taken is a ConstraintError, and the failed
  request aborts its transaction, so nothing changes.
\<close>

definition expenses_add :: "expense \<Rightarrow> db \<Rightarrow> (error + int) \<times> db" where
  "expenses_add v d =
     (case expense_id v of
        None \<Rightarrow>
          (let k = expenseKeyGen d in
           if map_of (expenses d) k \<noteq> None then (Inl ConstraintError, d)
           else (Inr k, d\<lparr>expenses := upsert k (v\<lparr>expense_id := Some k\<rparr>) (expenses d),
                          expenseKeyGen := k + 1\<rparr>))
      | Some k \<Rightarrow>
          if map_of (expenses d) k \<noteq> None then (Inl ConstraintError, d)
          else (Inr k, d\<lparr>expenses := upsert k v (expenses d),
                         expenseKeyGen := max (expenseKeyGen d) (k + 1)\<rparr>))"

definition expenses_put :: "expense \<Rightarrow> db \<Rightarrow> (error + int) \<times> db" where
  "expenses_put v d =
     (case expense_id v of
        None \<Rightarrow>
          (let k = expenseKeyGen d in
           (Inr k, d\<lparr>expenses := upsert k (v\<lparr>expense_id := Some k\<rparr>) (expenses d),
                      expenseKeyGen := k + 1\<rparr>))
      | Some k \<Rightarrow>
          (Inr k, d\<lparr>expenses := upsert k v (expenses d),
                     expenseKeyGen := max (expenseKeyGen d) (k + 1)\<rparr>))"

definition name_taken :: "string \<Rightarrow> (int \<times> category) list \<Rightarrow> bool" where
  "name_taken n rows = list_ex (\<lambda>row. name (snd row) = n) rows"

definition categories_add :: "category \<Rightarrow> db \<Rightarrow> (error + int) \<times> db" where
  "categories_add v d =
     (case category_id v of
        None \<Rightarrow>
          (let k = categoryKeyGen d in
           if map_of (categories d) k \<noteq> None \<or> name_taken (name v) (categories d)
           then (Inl ConstraintError, d)
           else (Inr k, d\<lparr>categories := upsert k (v\<lparr>category_id := Some k\<rparr>) (categories d),
                          categoryKeyGen := k + 1\<rparr>))
      | Some k \<Rightarrow>
          if map_of (categories d) k \<noteq> None \<or> name_taken (name v) (categories d)
          then (Inl ConstraintError, d)
          else (Inr k, d\<lparr>categories := upsert k v (categories d),
                         categoryKeyGen := max (categoryKeyGen d) (k + 1)\<rparr>))"

subsection \<open>Database: expenses\<close>

definition addExpense :: "clock \<Rightarrow> expense \<Rightarrow> db \<Rightarrow> (error + int) \<times> db" where
  "addExpense clk expense d =
     (let (t1, d1) = new_Date_toISOString clk d;
          (t2, d2) = new_Date_toISOString clk d1;
          expenseData = expense\<lparr>createdAt := Some t1, updatedAt := Some t2\<rparr>
      in expenses_add expenseData d2)"

definition getExpense :: "int \<Rightarrow> db \<Rightarrow> expense option" where
  "getExpense k d = map_of (expenses d) k"

definition getAllExpenses :: "db \<Rightarrow> expense list" where
  "getAllExpenses d = map snd (expenses d)"

text \<open>The object spread \<^verbatim>\<open>{ ...expense, ...updates }\<close>: a property of \<open>updates\<close> wins.\<close>

definition orElse :: "'a option \<Rightarrow> 'a option \<Rightarrow> 'a option" where
  "orElse new old = (case new of Some v \<Rightarrow> Some v | None \<Rightarrow> old)"

definition spread :: "expense \<Rightarrow> expense \<Rightarrow> expense" where
  "spread e u =
     \<lparr> expense_id = orElse (expense_id u) (expense_id e),
       datePaid = orElse (datePaid u) (datePaid e),
       merchant = orElse (merchant u) (merchant e),
       expenseDetails = orElse (expenseDetails u) (expenseDetails e),
       expenseCategory = orElse (expenseCategory u) (expenseCategory e),
       expenseAmount = orElse (expenseAmount u) (expenseAmount e),
       percentUsedForWork = orElse (percentUsedForWork u) (percentUsedForWork e),
       deductible = orElse (deductible u) (deductible e),
       expense_notes = orElse (expense_notes u) (expense_notes e),
       receiptFiles = orElse (receiptFiles u) (receiptFiles e),
       createdAt = orElse (createdAt u) (createdAt e),
       updatedAt = orElse (updatedAt u) (updatedAt e) \<rparr>"

definition updateExpense :: "clock \<Rightarrow> int \<Rightarrow> expense \<Rightarrow> db \<Rightarrow> (error + expense) \<times> db" where
  "updateExpense clk k updates d =
     (case getExpense k d of
        None \<Rightarrow> (Inl (NotFound k), d)
      | Some expense \<Rightarrow>
          (let (t, d1) = new_Date_toISOString clk d;
               updatedExpense = (spread expense updates)\<lparr>expense_id := Some k, updatedAt := Some t\<rparr>
           in case expenses_put updatedExpense d1 of
                (Inl err, d2) \<Rightarrow> (Inl err, d2)
              | (Inr _, d2) \<Rightarrow> (Inr updatedExpense, d2)))"

definition deleteExpense :: "int \<Rightarrow> db \<Rightarrow> (error + bool) \<times> db" where
  "deleteExpense k d = (Inr True, d\<lparr>expenses := delete_key k (expenses d)\<rparr>)"

subsection \<open>Database: categories\<close>

definition addCategory :: "category \<Rightarrow> db \<Rightarrow> (error + int) \<times> db" where
  "addCategory c d = categories_add c d"

definition getAllCategories :: "db \<Rightarrow> category list" where
  "getAllCategories d = map snd (categories d)"

definition deleteCategory :: "int \<Rightarrow> db \<Rightarrow> (error + bool) \<times> db" where
  "deleteCategory k d = (Inr True, d\<lparr>categories := delete_key k (categories d)\<rparr>)"



text \<open>The loop \<^verbatim>\<open>for (const category of cs) await this.addCategory(category)\<close>:
  the first rejected add ends it.\<close>

fun addCategories :: "category list \<Rightarrow> db \<Rightarrow> (error + unit) \<times> db" where
  "addCategories [] d = (Inr (), d)"
| "addCategories (c # cs) d =
     (case addCategory c d of
        (Inl err, d') \<Rightarrow> (Inl err, d')
      | (Inr _, d') \<Rightarrow> addCategories cs d')"



subsection \<open>Database: export and import\<close>

definition DB_VERSION :: nat where
  "DB_VERSION = 1"

record snapshot =
  data_expenses :: "expense list option"
  data_categories :: "category list option"
  exportDate :: "string option"
  version :: "nat option"

definition exportData :: "clock \<Rightarrow> db \<Rightarrow> snapshot \<times> db" where
  "exportData clk d =
     (let es = getAllExpenses d;
          cs = getAllCategories d;
          (t, d1) = new_Date_toISOString clk d
      in (\<lparr> data_expenses = Some es, data_categories = Some cs,
             exportDate = Some t, version = Some DB_VERSION \<rparr>, d1))"

fun addExpenses :: "clock \<Rightarrow> expense list \<Rightarrow> db \<Rightarrow> (error + unit) \<times> db" where
  "addExpenses clk [] d = (Inr (), d)"
| "addExpenses clk (e # es) d =
     (case addExpense clk e d of
        (Inl err, d') \<Rightarrow> (Inl err, d')
      | (Inr _, d') \<Rightarrow> addExpenses clk es d')"

text \<open>
  \<^verbatim>\<open>Database.importData(data)\<close>: both stores are cleared first (a clear keeps the key
  generator), then whichever of \<^verbatim>\<open>data.categories\<close> and \<^verbatim>\<open>data.expenses\<close> is there is
  inserted row by row through addCategory and addExpense.
\<close>

definition importData :: "clock \<Rightarrow> snapshot \<Rightarrow> db \<Rightarrow> (error + bool) \<times> db" where
  "importData clk data d =
     (let d1 = d\<lparr>expenses := []\<rparr>;
          d2 = d1\<lparr>categories := []\<rparr>
      in case (case data_categories data of
                 None \<Rightarrow> (Inr (), d2)
               | Some cs \<Rightarrow> addCategories cs d2) of
           (Inl err, d3) \<Rightarrow> (Inl err, d3)
         | (Inr _, d3) \<Rightarrow>
             (case (case data_expenses data of
                      None \<Rightarrow> (Inr (), d3)
                    | Some es \<Rightarrow> addExpenses clk es d3) of
                (Inl err, d4) \<Rightarrow> (Inl err, d4)
              | (Inr _, d4) \<Rightarrow> (Inr True, d4)))"

subsection \<open>BackupManager: import from a file\<close>

text \<open>
  What the file picker and \<^verbatim>\<open>JSON.parse\<close> hand to \<^verbatim>\<open>BackupManager.importData\<close>: no file,
  a text that does not parse, or the parsed document. \<open>confirmed\<close> is the answer to the
  \<^verbatim>\<open>confirm\<close> dialog.
\<close>

datatype picked_file = NoFile | Unparsable | Document snapshot

definition BackupManager_importData ::
    "clock \<Rightarrow> picked_file \<Rightarrow> bool \<Rightarrow> db \<Rightarrow> (error + bool) \<times> db" where
  "BackupManager_importData clk file confirmed d =
     (case file of
        NoFile \<Rightarrow> (Inl NoFileSelected, d)
      | Unparsable \<Rightarrow> (Inl SyntaxError, d)
      | Document data \<Rightarrow>
          if data_expenses data = None \<or> data_categories data = None
          then (Inl InvalidBackupFormat, d)
          else if \<not> confirmed then (Inl ImportCancelled, d)
          else (case importData clk data d of
                  (Inl err, d') \<Rightarrow> (Inl err, d')
                | (Inr _, d') \<Rightarrow> (Inr True, d')))"

subsection \<open>ExpenseManager: deductible and validation\<close>

definition calculateDeductible :: "rat \<Rightarrow> rat \<Rightarrow> rat" where
  "calculateDeductible amount percent = (amount * percent) / 100"














text \<open>
  The form as \<^verbatim>\<open>createExpenseFromForm\<close> reads it: \<^verbatim>\<open>formData.get\<close> of a text field
  (\<open>None\<close> when the form has no such field), and for the two numeric fields the number
  \<^verbatim>\<open>parseFloat\<close> made of the text, \<open>None\<close> for NaN.
\<close>

record formData =
  form_datePaid :: "string option"
  form_merchant :: "string option"
  form_expenseDetails :: "string option"
  form_expenseCategory :: "string option"
  form_expenseAmount :: "rat option"
  form_percentUsedForWork :: "rat option"
  form_notes :: "string option"

definition createExpenseFromForm :: "formData \<Rightarrow> expense" where
  "createExpenseFromForm fd =
     (let amount = (case form_expenseAmount fd of None \<Rightarrow> 0 | Some r \<Rightarrow> r);
          percent = (case form_percentUsedForWork fd of None \<Rightarrow> 0 | Some r \<Rightarrow> r)
      in \<lparr> expense_id = None,
           datePaid = form_datePaid fd,
           merchant = form_merchant fd,
           expenseDetails = form_expenseDetails fd,
           expenseCategory = form_expenseCategory fd,
           expenseAmount = Some amount,
           percentUsedForWork = Some percent,
           deductible = Some (calculateDeductible amount percent),
           expense_notes = Some (case form_notes fd of None \<Rightarrow> [] | Some s \<Rightarrow> s),
           receiptFiles = Some [],
           createdAt = None,
           updatedAt = None \<rparr>)"

subsection \<open>Dates\<close>

text \<open>
  A \<^verbatim>\<open>Date\<close> object is kept as the fields its local-time getters return, so that
  comparing two of them field by field compares their instants (the host's offset from
  UTC is taken as fixed). \<open>None\<close> is the Invalid Date, whose getters return NaN.
  \<open>tz\<close> is the host's offset from UTC in minutes (between -12:00 and +14:00).

  \<^verbatim>\<open>new Date("YYYY-MM-DD")\<close> is midnight UTC of that day: in a zone east of UTC that is
  the same local day, \<open>tz\<close> minutes into it; in a zone west of UTC it is the evening of the
  day before. The strings read are those an \<^verbatim>\<open>input type="date"\<close> produces.
\<close>

record jsdate =
  fullYear :: int
  monthIndex :: nat
  dayOfMonth :: nat
  msOfDay :: nat

definition digit_val :: "char \<Rightarrow> nat option" where
  "digit_val c =
     (let n = (of_char c :: nat) in if 48 \<le> n \<and> n \<le> 57 then Some (n - 48) else None)"

fun digits_val :: "nat \<Rightarrow> string \<Rightarrow> nat option" where
  "digits_val acc [] = Some acc"
| "digits_val acc (c # cs) =
     (case digit_val c of None \<Rightarrow> None | Some n \<Rightarrow> digits_val (10 * acc + n) cs)"

definition isLeapYear :: "int \<Rightarrow> bool" where
  "isLeapYear y \<longleftrightarrow> (y mod 4 = 0 \<and> y mod 100 \<noteq> 0) \<or> y mod 400 = 0"

definition daysInMonth :: "int \<Rightarrow> nat \<Rightarrow> nat" where
  "daysInMonth y m =
     (if m = 2 then (if isLeapYear y then 29 else 28)
      else if m = 4 \<or> m = 6 \<or> m = 9 \<or> m = 11 then 30 else 31)"

definition parse_iso_date :: "string \<Rightarrow> (int \<times> nat \<times> nat) option" where
  "parse_iso_date s =
     (if length s = 10 \<and> s ! 4 = CHR ''-'' \<and> s ! 7 = CHR ''-'' then
        (case (digits_val 0 (take 4 s), digits_val 0 (take 2 (drop 5 s)),
               digits_val 0 (drop 8 s)) of
           (Some y, Some m, Some dd) \<Rightarrow>
             if 1 \<le> m \<and> m \<le> 12 \<and> 1 \<le> dd \<and> dd \<le> daysInMonth (int y) m
             then Some (int y, m, dd) else None
         | _ \<Rightarrow> None)
      else None)"

definition previousDay :: "int \<times> nat \<times> nat \<Rightarrow> int \<times> nat \<times> nat" where
  "previousDay ymd =
     (case ymd of (y, m, dd) \<Rightarrow>
        if dd > 1 then (y, m, dd - 1)
        else if m > 1 then (y, m - 1, daysInMonth y (m - 1))
        else (y - 1, 12, 31))"

definition localOfUtcMidnight :: "int \<Rightarrow> int \<times> nat \<times> nat \<Rightarrow> jsdate" where
  "localOfUtcMidnight tz ymd =
     (case (if tz < 0 then previousDay ymd else ymd) of (y, m, dd) \<Rightarrow>
        \<lparr> fullYear = y, monthIndex = m - 1, dayOfMonth = dd,
          msOfDay = nat ((tz * 60000) mod 86400000) \<rparr>)"

definition new_Date :: "int \<Rightarrow> string option \<Rightarrow> jsdate option" where
  "new_Date tz v =
     (case v of
        None \<Rightarrow> None
      | Some s \<Rightarrow> map_option (localOfUtcMidnight tz) (parse_iso_date s))"


definition setHours :: "nat \<Rightarrow> nat \<Rightarrow> nat \<Rightarrow> nat \<Rightarrow> jsdate option \<Rightarrow> jsdate option" where
  "setHours h mi sec ms dt =
     map_option (\<lambda>x. x\<lparr>msOfDay := ((h * 60 + mi) * 60 + sec) * 1000 + ms\<rparr>) dt"

definition getFullYear :: "jsdate option \<Rightarrow> int option" where
  "getFullYear dt = map_option fullYear dt"

definition getMonth :: "jsdate option \<Rightarrow> nat option" where
  "getMonth dt = map_option monthIndex dt"

definition instant_less :: "jsdate \<Rightarrow> jsdate \<Rightarrow> bool" where
  "instant_less a b \<longleftrightarrow>
     fullYear a < fullYear b \<or>
     (fullYear a = fullYear b \<and>
       (monthIndex a < monthIndex b \<or>
        (monthIndex a = monthIndex b \<and>
          (dayOfMonth a < dayOfMonth b \<or>
           (dayOfMonth a = dayOfMonth b \<and> msOfDay a < msOfDay b)))))"

text \<open>\<^verbatim>\<open>a < b\<close> and \<^verbatim>\<open>a > b\<close> on Date objects: false when either is invalid.\<close>

definition date_lt :: "jsdate option \<Rightarrow> jsdate option \<Rightarrow> bool" where
  "date_lt a b = (case (a, b) of (Some x, Some y) \<Rightarrow> instant_less x y | _ \<Rightarrow> False)"

definition date_gt :: "jsdate option \<Rightarrow> jsdate option \<Rightarrow> bool" where
  "date_gt a b = date_lt b a"

text \<open>\<^verbatim>\<open>x !== n\<close> and \<^verbatim>\<open>x === n\<close> for a number \<open>x\<close> that may be NaN (\<open>None\<close>).\<close>

definition strict_neq :: "'a option \<Rightarrow> 'a \<Rightarrow> bool" where
  "strict_neq x n = (case x of None \<Rightarrow> True | Some v \<Rightarrow> v \<noteq> n)"


subsection \<open>ExpenseManager: filtering\<close>

text \<open>
  \<^verbatim>\<open>this.currentFilter\<close>. \<open>filter_category\<close> is \<^verbatim>\<open>'all'\<close> or a category name;
  \<open>filter_year\<close> and \<open>filter_quarter\<close> are \<open>None\<close> for \<^verbatim>\<open>'all'\<close> and otherwise the
  integer \<^verbatim>\<open>parseInt\<close> reads; \<open>dateFrom\<close>, \<open>dateTo\<close> and \<open>searchTerm\<close> are strings, empty
  when unset.
\<close>

record currentFilter =
  filter_category :: string
  filter_year :: "int option"
  filter_quarter :: "int option"
  dateFrom :: string
  dateTo :: string
  searchTerm :: string

text \<open>\<^verbatim>\<open>String.prototype.toLowerCase\<close> follows the case mappings of Unicode, which the
  host holds; the functions that call it take it as their first argument.\<close>

fun starts_with :: "string \<Rightarrow> string \<Rightarrow> bool" where
  "starts_with s [] = True"
| "starts_with [] (p # ps) = False"
| "starts_with (c # cs) (p # ps) = (c = p \<and> starts_with cs ps)"

fun str_includes :: "string \<Rightarrow> string \<Rightarrow> bool" where
  "str_includes [] p = (p = [])"
| "str_includes (c # cs) p = (starts_with (c # cs) p \<or> str_includes cs p)"

text \<open>\<^verbatim>\<open>[a, b, c, d].join(' ')\<close>: an undefined element contributes the empty string.\<close>

definition str_or_empty :: "string option \<Rightarrow> string" where
  "str_or_empty v = (case v of None \<Rightarrow> [] | Some s \<Rightarrow> s)"

definition searchableText :: "(string \<Rightarrow> string) \<Rightarrow> expense \<Rightarrow> string" where
  "searchableText toLowerCase expense =
     toLowerCase (str_or_empty (merchant expense) @ '' '' @
                  str_or_empty (expenseDetails expense) @ '' '' @
                  str_or_empty (expenseCategory expense) @ '' '' @
                  str_or_empty (expense_notes expense))"

text \<open>The three blocks of the callback of \<^verbatim>\<open>expenses.filter\<close>; each says whether it
  reaches its \<^verbatim>\<open>return false\<close>.\<close>

definition category_rejects :: "currentFilter \<Rightarrow> expense \<Rightarrow> bool" where
  "category_rejects f expense \<longleftrightarrow>
     filter_category f \<noteq> ''all'' \<and> expenseCategory expense \<noteq> Some (filter_category f)"

definition date_rejects :: "int \<Rightarrow> currentFilter \<Rightarrow> expense \<Rightarrow> bool" where
  "date_rejects tz f expense =
     (let expenseDate = new_Date tz (datePaid expense) in
      if dateFrom f \<noteq> [] \<and> dateTo f \<noteq> [] then
        (let fromDate = setHours 0 0 0 0 (new_Date tz (Some (dateFrom f)));
             toDate = setHours 23 59 59 999 (new_Date tz (Some (dateTo f)))
         in date_lt expenseDate fromDate \<or> date_gt expenseDate toDate)
      else
        (case filter_year f of
           None \<Rightarrow> False
         | Some year \<Rightarrow>
             if strict_neq (getFullYear expenseDate) year then True
             else
               (case filter_quarter f of
                  None \<Rightarrow> False
                | Some quarter \<Rightarrow>
                    (let expenseQuarter =
                           map_option (\<lambda>m. int (m div 3) + 1) (getMonth expenseDate)
                     in strict_neq expenseQuarter quarter))))"

definition search_rejects :: "(string \<Rightarrow> string) \<Rightarrow> currentFilter \<Rightarrow> expense \<Rightarrow> bool" where
  "search_rejects toLowerCase f expense =
     (if searchTerm f \<noteq> [] then
        (let searchLower = toLowerCase (searchTerm f)
         in \<not> str_includes (searchableText toLowerCase expense) searchLower)
      else False)"

definition filterCallback ::
    "(string \<Rightarrow> string) \<Rightarrow> int \<Rightarrow> currentFilter \<Rightarrow> expense \<Rightarrow> bool" where
  "filterCallback toLowerCase tz f expense =
     (if category_rejects f expense then False
      else if date_rejects tz f expense then False
      else if search_rejects toLowerCase f expense then False
      else True)"

definition filterExpenses ::
    "(string \<Rightarrow> string) \<Rightarrow> int \<Rightarrow> currentFilter \<Rightarrow> expense list \<Rightarrow> expense list" where
  "filterExpenses toLowerCase tz f es = filter (filterCallback toLowerCase tz f) es"

subsection \<open>DashboardManager: monthly trend\<close>










subsection \<open>Well-formed stores\<close>

text \<open>
  What IndexedDB maintains for a store with \<^verbatim>\<open>keyPath: 'id'\<close>: rows in ascending key
  order, each row's \<open>id\<close> its key; for the categories store, the key generator past every
  key and no two rows of one name.
\<close>

definition sorted_keys :: "(int \<times> 'r) list \<Rightarrow> bool" where
  "sorted_keys rows = sorted_wrt (<) (map fst rows)"

definition wf_expenses :: "db \<Rightarrow> bool" where
  "wf_expenses d \<longleftrightarrow>
     sorted_keys (expenses d) \<and>
     list_all (\<lambda>row. expense_id (snd row) = Some (fst row)) (expenses d)"

definition wf_categories :: "db \<Rightarrow> bool" where
  "wf_categories d \<longleftrightarrow>
     sorted_keys (categories d) \<and>
     list_all (\<lambda>row. category_id (snd row) = Some (fst row) \<and> fst row < categoryKeyGen d)
       (categories d) \<and>
     distinct (map (\<lambda>row. name (snd row)) (categories d))"

subsection \<open>The rules of validation, one by one\<close>










subsection \<open>Export followed by import\<close>

definition roundTrip :: "clock \<Rightarrow> db \<Rightarrow> (error + bool) \<times> db" where
  "roundTrip clk d = (case exportData clk d of (data, d1) \<Rightarrow> importData clk data d1)"

text \<open>The rows with the time stamps importing gives them: row after row, two clock
  readings each, starting at reading \<open>t\<close>.\<close>

fun restamp :: "clock \<Rightarrow> nat \<Rightarrow> (int \<times> expense) list \<Rightarrow> (int \<times> expense) list" where
  "restamp clk t [] = []"
| "restamp clk t (row # rows) =
     (fst row, (snd row)\<lparr>createdAt := Some (clk t), updatedAt := Some (clk (Suc t))\<rparr>)
       # restamp clk (t + 2) rows"

definition without_stamps :: "(int \<times> expense) list \<Rightarrow> (int \<times> expense) list" where
  "without_stamps rows =
     map (\<lambda>row. (fst row, (snd row)\<lparr>createdAt := None, updatedAt := None\<rparr>)) rows"

subsection \<open>Quarters of the calendar\<close>

text \<open>
  What the query contract says of the quarter: quarter \<open>q\<close> covers the calendar months with
  index \<open>3(q-1)\<close> to \<open>3(q-1)+2\<close>, January having index 0. The calendar date of an expense
  is the one its \<open>datePaid\<close> string names.
\<close>

definition calendar_date :: "expense \<Rightarrow> (int \<times> nat \<times> nat) option" where
  "calendar_date e = (case datePaid e of None \<Rightarrow> None | Some s \<Rightarrow> parse_iso_date s)"

definition calendar_monthIndex :: "expense \<Rightarrow> nat option" where
  "calendar_monthIndex e = (case calendar_date e of None \<Rightarrow> None | Some (y, m, dd) \<Rightarrow> Some (m - 1))"

definition quarter_covers :: "int \<Rightarrow> nat \<Rightarrow> bool" where
  "quarter_covers q monthIdx \<longleftrightarrow> 3 * (q - 1) \<le> int monthIdx \<and> int monthIdx \<le> 3 * (q - 1) + 2"

subsection \<open>The monthly trend, entry by entry\<close>




subsection \<open>Seeding and migrating categories\<close>




subsection \<open>Consistency of the derived field\<close>

text \<open>A record whose three fields are there and satisfy
  \<open>deductible = expenseAmount * percentUsedForWork / 100\<close>.\<close>

definition deductible_consistent :: "expense \<Rightarrow> bool" where
  "deductible_consistent e =
     (case (expenseAmount e, percentUsedForWork e, deductible e) of
        (Some a, Some p, Some dd) \<Rightarrow> dd = a * p / 100
      | _ \<Rightarrow> False)"

subsection \<open>Sample data\<close>

definition emptyExpense :: expense where
  "emptyExpense =
     \<lparr> expense_id = None, datePaid = None, merchant = None, expenseDetails = None,
       expenseCategory = None, expenseAmount = None, percentUsedForWork = None,
       deductible = None, expense_notes = None, receiptFiles = None,
       createdAt = None, updatedAt = None \<rparr>"

definition sampleClock :: clock where
  "sampleClock n = ''2024-05-01T10:00:00.000Z''"

definition broadband :: expense where
  "broadband =
     \<lparr> expense_id = Some 1, datePaid = Some ''2024-01-15'', merchant = Some ''Liquid'',
       expenseDetails = Some ''Fibre line'', expenseCategory = Some ''Internet'',
       expenseAmount = Some 100, percentUsedForWork = Some 50,
       deductible = Some 50, expense_notes = Some [], receiptFiles = Some [],
       createdAt = Some ''2024-01-15T08:00:00.000Z'',
       updatedAt = Some ''2024-01-15T08:00:00.000Z'' \<rparr>"

definition laptop :: expense where
  "laptop =
     \<lparr> expense_id = Some 2, datePaid = Some ''2024-04-10'', merchant = Some ''Dell'',
       expenseDetails = Some ''Laptop'', expenseCategory = Some ''Computer'',
       expenseAmount = Some 900, percentUsedForWork = Some 100,
       deductible = Some 900, expense_notes = Some [], receiptFiles = Some [],
       createdAt = Some ''2024-04-10T08:00:00.000Z'',
       updatedAt = Some ''2024-04-10T08:00:00.000Z'' \<rparr>"

definition internetCategory :: category where
  "internetCategory =
     \<lparr> category_id = Some 1, name = ''Internet'', color = ''#4c9aff'', icon = ''i'' \<rparr>"

definition deskCategory :: category where
  "deskCategory =
     \<lparr> category_id = Some 2, name = ''Desk'', color = ''#ff5630'', icon = ''d'' \<rparr>"

definition emptyDb :: db where
  "emptyDb =
     \<lparr> expenses = [], expenseKeyGen = 1, categories = [], categoryKeyGen = 1,
       settings = [], ticks = 0 \<rparr>"

definition sampleDb :: db where
  "sampleDb =
     \<lparr> expenses = [(1, broadband), (2, laptop)], expenseKeyGen = 3,
       categories = [(1, internetCategory), (2, deskCategory)], categoryKeyGen = 3,
       settings = [(''googleClientId'', ''abc'')], ticks = 0 \<rparr>"

definition sampleForm :: formData where
  "sampleForm =
     \<lparr> form_datePaid = Some ''2024-01-15'', form_merchant = Some ''Liquid'',
       form_expenseDetails = Some ''Fibre line'', form_expenseCategory = Some ''Internet'',
       form_expenseAmount = Some 200, form_percentUsedForWork = Some 50,
       form_notes = None \<rparr>"

definition expensesOnly :: snapshot where
  "expensesOnly =
     \<lparr> data_expenses = Some [], data_categories = None,
       exportDate = Some ''2024-05-01T10:00:00.000Z'', version = Some 1 \<rparr>"

definition defaultFilter :: currentFilter where
  "defaultFilter =
     \<lparr> filter_category = ''all'', filter_year = None, filter_quarter = None,
       dateFrom = [], dateTo = [], searchTerm = [] \<rparr>"

definition aprilFirst :: expense where
  "aprilFirst = laptop\<lparr>datePaid := Some ''2024-04-01''\<rparr>"

definition newYearsDay :: expense where
  "newYearsDay = broadband\<lparr>datePaid := Some ''2024-01-01''\<rparr>"





section \<open>Properties\<close>

subsection \<open>Object store lemmas\<close>

lemma map_of_upsert: "map_of (upsert k r rows) = (map_of rows)(k \<mapsto> r)"
  by (induction rows) (auto simp: fun_eq_iff)

lemma keys_upsert: "fst ` set (upsert k r rows) = insert k (fst ` set rows)"
  by (induction rows) force+

lemma keys_upsert_existing:
  "map_of rows k = Some r0 \<Longrightarrow> fst ` set (upsert k r rows) = fst ` set rows"
  by (auto simp: keys_upsert dest: map_of_SomeD intro: rev_image_eqI)

subsection \<open>Validation\<close>














subsection \<open>Deleting a category\<close>

text \<open>
  C9. Deleting a category, whatever its id and whatever expenses name it, leaves the
  expense store as it was: the same rows, so every expense is still retrievable by its id
  with every field, its expenseCategory string among them, unchanged.
\<close>

theorem deleteCategory_keeps_expenses:
  "fst (deleteCategory k d) = Inr True \<and>
   expenses (snd (deleteCategory k d)) = expenses d \<and>
   getAllExpenses (snd (deleteCategory k d)) = getAllExpenses d \<and>
   (\<forall>j. getExpense j (snd (deleteCategory k d)) = getExpense j d)"
  by (simp add: deleteCategory_def getAllExpenses_def getExpense_def)

theorem deleteCategory_keeps_expenses_witness:
  "getExpense 1 (snd (deleteCategory 1 sampleDb)) = Some broadband \<and>
   expenseCategory broadband = Some ''Internet'' \<and>
   map (\<lambda>c. name c) (getAllCategories (snd (deleteCategory 1 sampleDb))) = [''Desk'']"
  using deleteCategory_keeps_expenses [of 1 sampleDb]
  by (simp add: getExpense_def sampleDb_def broadband_def deleteCategory_def delete_key_def
      getAllCategories_def deskCategory_def)

subsection \<open>Updating an expense\<close>

text \<open>
  C10. When an expense with the given id exists, updateExpense succeeds and stores, under
  that id, a record whose id field is the id argument whatever id the patch carries;
  every other row of the expense store, the set of keys, the categories and the settings
  are as before; updatedAt is the new clock reading whatever the patch says; and each other
  field is the patch's value when the patch has one and the previous value when it has
  none.
\<close>

theorem updateExpense_forces_id:
  assumes "getExpense k d = Some e"
  shows "case updateExpense clk k updates d of
           (Inl err, d') \<Rightarrow> False
         | (Inr e', d') \<Rightarrow>
             expense_id e' = Some k \<and>
             getExpense k d' = Some e' \<and>
             (\<forall>j. j \<noteq> k \<longrightarrow> getExpense j d' = getExpense j d) \<and>
             fst ` set (expenses d') = fst ` set (expenses d) \<and>
             categories d' = categories d \<and> settings d' = settings d \<and>
             updatedAt e' = Some (clk (ticks d)) \<and>
             datePaid e' = orElse (datePaid updates) (datePaid e) \<and>
             merchant e' = orElse (merchant updates) (merchant e) \<and>
             expenseDetails e' = orElse (expenseDetails updates) (expenseDetails e) \<and>
             expenseCategory e' = orElse (expenseCategory updates) (expenseCategory e) \<and>
             expenseAmount e' = orElse (expenseAmount updates) (expenseAmount e) \<and>
             percentUsedForWork e' =
               orElse (percentUsedForWork updates) (percentUsedForWork e) \<and>
             deductible e' = orElse (deductible updates) (deductible e) \<and>
             expense_notes e' = orElse (expense_notes updates) (expense_notes e) \<and>
             receiptFiles e' = orElse (receiptFiles updates) (receiptFiles e) \<and>
             createdAt e' = orElse (createdAt updates) (createdAt e)"
  using assms
  by (simp add: updateExpense_def getExpense_def new_Date_toISOString_def expenses_put_def
      spread_def map_of_upsert keys_upsert_existing Let_def)

theorem updateExpense_forces_id_witness:
  "getExpense 1 sampleDb = Some broadband \<and>
   (case updateExpense sampleClock 1
           (emptyExpense\<lparr>expense_id := Some 2, expenseAmount := Some 200\<rparr>) sampleDb of
      (Inl err, d') \<Rightarrow> False
    | (Inr e', d') \<Rightarrow>
        expense_id e' = Some 1 \<and> getExpense 2 d' = Some laptop \<and>
        merchant e' = Some ''Liquid'' \<and> expenseAmount e' = Some 200)"
proof -
  have h: "getExpense 1 sampleDb = Some broadband"
    by (simp add: getExpense_def sampleDb_def)
  have l: "getExpense 2 sampleDb = Some laptop"
    by (simp add: getExpense_def sampleDb_def)
  show ?thesis
    using h l updateExpense_forces_id
      [OF h, of sampleClock "emptyExpense\<lparr>expense_id := Some 2, expenseAmount := Some 200\<rparr>"]
    by (auto split: prod.splits sum.splits simp: orElse_def emptyExpense_def broadband_def)
qed

subsection \<open>Adding a category\<close>

lemma name_taken_iff: "name_taken n rows \<longleftrightarrow> n \<in> (\<lambda>row. name (snd row)) ` set rows"
  by (auto simp: name_taken_def list_ex_iff)

lemma upsert_mem: "(k, r) \<in> set (upsert k r rows)"
  by (induction rows) auto

lemma count_upsert_fresh:
  "k \<notin> fst ` set rows \<Longrightarrow>
   length (filter Q (upsert k r rows)) = length (filter Q rows) + (if Q (k, r) then 1 else 0)"
  by (induction rows) auto

lemma count_distinct_present:
  "distinct (map f rows) \<Longrightarrow> n \<in> f ` set rows \<Longrightarrow> length (filter (\<lambda>row. f row = n) rows) = 1"
proof (induction rows)
  case Nil
  then show ?case by simp
next
  case (Cons row rows)
  show ?case
  proof (cases "f row = n")
    case True
    with Cons.prems have "n \<notin> f ` set rows" by simp
    then have "\<forall>x\<in>set rows. f x \<noteq> n" by blast
    then have "filter (\<lambda>row. f row = n) rows = []" by (simp add: filter_empty_conv)
    with True show ?thesis by simp
  next
    case False
    with Cons show ?thesis by auto
  qed
qed

lemma count_names:
  "length (filter (\<lambda>c. name c = n) (map snd rows)) =
   length (filter (\<lambda>row. name (snd row) = n) rows)"
  by (simp add: filter_map comp_def)

lemma wf_categories_gen_fresh:
  "wf_categories d \<Longrightarrow> categoryKeyGen d \<notin> fst ` set (categories d)"
  by (auto simp: wf_categories_def list_all_iff)

lemma map_of_None_iff: "map_of rows k = None \<longleftrightarrow> k \<notin> fst ` set rows"
  by (simp add: map_of_eq_None_iff)

text \<open>
  C7. In a well-formed categories store, adding a category of some name twice (no id in the
  object, as the application builds it; icon and colour may differ) makes the second call
  fail with the unique index's ConstraintError and leave the store as the first call left
  it, and then exactly one category has that name. The first call succeeds, with the key
  generator's number, iff the name was not there yet.
\<close>

theorem addCategory_twice_same_name:
  assumes "wf_categories d"
  shows "case addCategory \<lparr>category_id = None, name = n, color = colA, icon = iconA\<rparr> d of
           (r1, d1) \<Rightarrow>
             (case addCategory \<lparr>category_id = None, name = n, color = colB, icon = iconB\<rparr> d1 of
                (r2, d2) \<Rightarrow>
                  r1 = (if name_taken n (categories d) then Inl ConstraintError
                        else Inr (categoryKeyGen d)) \<and>
                  r2 = Inl ConstraintError \<and> d2 = d1 \<and>
                  length (filter (\<lambda>c. name c = n) (getAllCategories d2)) = 1)"
proof (cases "name_taken n (categories d)")
  case True
  then have "n \<in> (\<lambda>row. name (snd row)) ` set (categories d)"
    by (simp add: name_taken_iff)
  with assms have "length (filter (\<lambda>row. name (snd row) = n) (categories d)) = 1"
    by (intro count_distinct_present) (simp_all add: wf_categories_def)
  with True show ?thesis
    by (simp add: addCategory_def categories_add_def getAllCategories_def comp_def)
next
  case False
  let ?k = "categoryKeyGen d"
  let ?c = "\<lparr>category_id = Some ?k, name = n, color = colA, icon = iconA\<rparr>"
  from assms have fresh: "?k \<notin> fst ` set (categories d)"
    by (rule wf_categories_gen_fresh)
  then have free: "map_of (categories d) ?k = None"
    by (simp add: map_of_None_iff)
  from False have "\<forall>row\<in>set (categories d). name (snd row) \<noteq> n"
    by (auto simp: name_taken_iff)
  then have zero: "filter (\<lambda>row. name (snd row) = n) (categories d) = []"
    by (simp add: filter_empty_conv)
  have one: "length (filter (\<lambda>row. name (snd row) = n) (upsert ?k ?c (categories d))) = 1"
    using count_upsert_fresh[OF fresh, of "\<lambda>row. name (snd row) = n" ?c] zero by simp
  have "(?k, ?c) \<in> set (upsert ?k ?c (categories d))"
    by (rule upsert_mem)
  then have taken: "name_taken n (upsert ?k ?c (categories d))"
    unfolding name_taken_iff by force
  from False free one taken show ?thesis
    by (simp add: addCategory_def categories_add_def getAllCategories_def Let_def comp_def)
qed

theorem addCategory_twice_same_name_witness:
  "wf_categories sampleDb \<and>
   fst (addCategory \<lparr>category_id = None, name = ''Travel'', color = ''#5243aa'', icon = ''t''\<rparr> sampleDb)
     = Inr 3 \<and>
   fst (addCategory \<lparr>category_id = None, name = ''Travel'', color = ''#000000'', icon = ''x''\<rparr>
         (snd (addCategory \<lparr>category_id = None, name = ''Travel'', color = ''#5243aa'', icon = ''t''\<rparr>
                 sampleDb)))
     = Inl ConstraintError"
proof -
  have wf: "wf_categories sampleDb"
    by (simp add: wf_categories_def sampleDb_def sorted_keys_def internetCategory_def
        deskCategory_def)
  have new: "\<not> name_taken ''Travel'' (categories sampleDb)"
    by (simp add: name_taken_def sampleDb_def internetCategory_def deskCategory_def)
  have gen: "categoryKeyGen sampleDb = 3"
    by (simp add: sampleDb_def)
  from wf new gen addCategory_twice_same_name
      [OF wf, where n = "''Travel''" and colA = "''#5243aa''" and iconA = "''t''"
         and colB = "''#000000''" and iconB = "''x''"]
  show ?thesis
    by (simp split: prod.splits)
qed

subsection \<open>The stored deductible\<close>

lemma createExpenseFromForm_consistent: "deductible_consistent (createExpenseFromForm fd)"
  by (simp add: deductible_consistent_def createExpenseFromForm_def calculateDeductible_def Let_def)

lemma addExpense_stores:
  assumes "addExpense clk x d = (Inr k, d')"
  shows "\<exists>e. getExpense k d' = Some e \<and> expenseAmount e = expenseAmount x \<and>
             percentUsedForWork e = percentUsedForWork x \<and> deductible e = deductible x"
  using assms
  by (auto simp: addExpense_def new_Date_toISOString_def expenses_add_def Let_def getExpense_def
      map_of_upsert split: option.splits if_splits)

text \<open>
  C1, as the code has it. The store never computes the deductible: createExpenseFromForm
  does, from the amount and the percentage of the form. So a record built by
  createExpenseFromForm is consistent; addExpense stores it consistent; updateExpense with
  a patch built by createExpenseFromForm stores a consistent record; and in general
  updateExpense stores, for each of the three fields, the patch's value when the patch has
  one and the previous value otherwise, without recomputing.
\<close>

theorem deductible_stored_as_given:
  "deductible_consistent (createExpenseFromForm fd) \<and>
   (addExpense clk (createExpenseFromForm fd) d = (Inr k, d') \<longrightarrow>
      (case getExpense k d' of None \<Rightarrow> False | Some e' \<Rightarrow> deductible_consistent e')) \<and>
   (getExpense k d = Some e \<longrightarrow>
      (case updateExpense clk k (createExpenseFromForm fd) d of
         (Inl err, d') \<Rightarrow> False
       | (Inr e', d') \<Rightarrow> getExpense k d' = Some e' \<and> deductible_consistent e')) \<and>
   (getExpense k d = Some e \<longrightarrow>
      (case updateExpense clk k updates d of
         (Inl err, d') \<Rightarrow> False
       | (Inr e', d') \<Rightarrow>
           getExpense k d' = Some e' \<and>
           expenseAmount e' = orElse (expenseAmount updates) (expenseAmount e) \<and>
           percentUsedForWork e' = orElse (percentUsedForWork updates) (percentUsedForWork e) \<and>
           deductible e' = orElse (deductible updates) (deductible e)))"
proof -
  have created: "deductible_consistent (createExpenseFromForm fd)"
    by (rule createExpenseFromForm_consistent)
  have added: "addExpense clk (createExpenseFromForm fd) d = (Inr k, d') \<longrightarrow>
      (case getExpense k d' of None \<Rightarrow> False | Some e' \<Rightarrow> deductible_consistent e')"
  proof
    assume "addExpense clk (createExpenseFromForm fd) d = (Inr k, d')"
    from addExpense_stores[OF this] created show
      "case getExpense k d' of None \<Rightarrow> False | Some e' \<Rightarrow> deductible_consistent e'"
      by (auto simp: deductible_consistent_def)
  qed
  have merged: "getExpense k d = Some e \<longrightarrow>
      (case updateExpense clk k u d of
         (Inl err, d') \<Rightarrow> False
       | (Inr e', d') \<Rightarrow>
           getExpense k d' = Some e' \<and>
           expenseAmount e' = orElse (expenseAmount u) (expenseAmount e) \<and>
           percentUsedForWork e' = orElse (percentUsedForWork u) (percentUsedForWork e) \<and>
           deductible e' = orElse (deductible u) (deductible e))" for u
    by (simp add: updateExpense_def getExpense_def new_Date_toISOString_def expenses_put_def
        spread_def map_of_upsert Let_def)
  have full: "getExpense k d = Some e \<longrightarrow>
      (case updateExpense clk k (createExpenseFromForm fd) d of
         (Inl err, d') \<Rightarrow> False
       | (Inr e', d') \<Rightarrow> getExpense k d' = Some e' \<and> deductible_consistent e')"
    using merged[of "createExpenseFromForm fd"] created
    by (auto simp: deductible_consistent_def orElse_def createExpenseFromForm_def Let_def
        split: prod.splits sum.splits)
  from created added full merged[of updates] show ?thesis
    by blast
qed

theorem deductible_stored_as_given_witness:
  "getExpense 1 sampleDb = Some broadband \<and>
   map_option deductible
     (getExpense 1 (snd (updateExpense sampleClock 1 (createExpenseFromForm sampleForm) sampleDb)))
     = Some (Some 100)"
proof -
  have h: "getExpense 1 sampleDb = Some broadband"
    by (simp add: getExpense_def sampleDb_def)
  have c: "deductible (createExpenseFromForm sampleForm) = Some 100"
    by (simp add: createExpenseFromForm_def sampleForm_def calculateDeductible_def)
  from h c deductible_stored_as_given
      [where k = 1 and d = sampleDb and e = broadband and clk = sampleClock
         and updates = "createExpenseFromForm sampleForm" and fd = sampleForm
         and d' = sampleDb]
  show ?thesis
    by (auto simp: orElse_def split: prod.splits sum.splits)
qed

text \<open>
  C1 as stated fails: a patch that touches only the amount keeps the old deductible. The
  stored record has amount 100, percentage 50, deductible 50; after the patch
  \<open>{expenseAmount: 200}\<close> it has amount 200, percentage 50 and still deductible 50, not
  100.
\<close>

theorem stale_deductible_counterexample:
  "map_option expenseAmount
     (getExpense 1 (snd (updateExpense sampleClock 1 (emptyExpense\<lparr>expenseAmount := Some 200\<rparr>) sampleDb)))
     = Some (Some 200) \<and>
   map_option percentUsedForWork
     (getExpense 1 (snd (updateExpense sampleClock 1 (emptyExpense\<lparr>expenseAmount := Some 200\<rparr>) sampleDb)))
     = Some (Some 50) \<and>
   map_option deductible
     (getExpense 1 (snd (updateExpense sampleClock 1 (emptyExpense\<lparr>expenseAmount := Some 200\<rparr>) sampleDb)))
     = Some (Some 50) \<and>
   calculateDeductible 200 50 = 100"
  by (simp add: updateExpense_def getExpense_def sampleDb_def new_Date_toISOString_def
      expenses_put_def spread_def orElse_def emptyExpense_def broadband_def Let_def
      calculateDeductible_def)

subsection \<open>Importing a snapshot\<close>

lemma addCategory_frame:
  "expenses (snd (addCategory c d)) = expenses d \<and> settings (snd (addCategory c d)) = settings d \<and>
   expenseKeyGen (snd (addCategory c d)) = expenseKeyGen d \<and> ticks (snd (addCategory c d)) = ticks d"
  by (simp add: addCategory_def categories_add_def Let_def split: option.splits)

lemma addCategory_error: "fst (addCategory c d) = Inl err \<Longrightarrow> err = ConstraintError"
  by (auto simp: addCategory_def categories_add_def Let_def split: option.splits if_splits)

lemma addCategories_frame:
  "expenses (snd (addCategories cs d)) = expenses d \<and>
   settings (snd (addCategories cs d)) = settings d \<and>
   ticks (snd (addCategories cs d)) = ticks d"
proof (induction cs arbitrary: d)
  case Nil
  then show ?case by simp
next
  case (Cons c cs)
  show ?case
  proof (cases "addCategory c d")
    case (Pair r d1)
    with addCategory_frame[of c d] Cons.IH[of d1] show ?thesis
      by (cases r) auto
  qed
qed

lemma addCategories_error: "fst (addCategories cs d) = Inl err \<Longrightarrow> err = ConstraintError"
proof (induction cs arbitrary: d)
  case Nil
  then show ?case by simp
next
  case (Cons c cs)
  show ?case
  proof (cases "addCategory c d")
    case (Pair r d1)
    with Cons.prems Cons.IH[of d1] addCategory_error[of c d] show ?thesis
      by (cases r) auto
  qed
qed

lemma addExpense_frame:
  "categories (snd (addExpense clk e d)) = categories d \<and>
   settings (snd (addExpense clk e d)) = settings d"
  by (simp add: addExpense_def expenses_add_def new_Date_toISOString_def Let_def split: option.splits)

lemma addExpense_error: "fst (addExpense clk e d) = Inl err \<Longrightarrow> err = ConstraintError"
  by (auto simp: addExpense_def expenses_add_def new_Date_toISOString_def Let_def
      split: option.splits if_splits)

lemma addExpenses_frame:
  "categories (snd (addExpenses clk es d)) = categories d \<and>
   settings (snd (addExpenses clk es d)) = settings d"
proof (induction es arbitrary: d)
  case Nil
  then show ?case by simp
next
  case (Cons e es)
  show ?case
  proof (cases "addExpense clk e d")
    case (Pair r d1)
    with addExpense_frame[of clk e d] Cons.IH[of d1] show ?thesis
      by (cases r) auto
  qed
qed

lemma addExpenses_error: "fst (addExpenses clk es d) = Inl err \<Longrightarrow> err = ConstraintError"
proof (induction es arbitrary: d)
  case Nil
  then show ?case by simp
next
  case (Cons e es)
  show ?case
  proof (cases "addExpense clk e d")
    case (Pair r d1)
    with Cons.prems Cons.IH[of d1] addExpense_error[of clk e d] show ?thesis
      by (cases r) auto
  qed
qed

lemma addCategories_frame':
  "addCategories cs d = (r, d') \<Longrightarrow>
   expenses d' = expenses d \<and> settings d' = settings d \<and> ticks d' = ticks d"
  using addCategories_frame[of cs d] by simp

lemma addExpenses_frame':
  "addExpenses clk es d = (r, d') \<Longrightarrow> categories d' = categories d \<and> settings d' = settings d"
  using addExpenses_frame[of clk es d] by simp

lemma addCategories_error':
  "addCategories cs d = (Inl err, d') \<Longrightarrow> err = ConstraintError"
  using addCategories_error[of cs d err] by simp

lemma addExpenses_error':
  "addExpenses clk es d = (Inl err, d') \<Longrightarrow> err = ConstraintError"
  using addExpenses_error[of clk es d err] by simp

lemma importData_settings: "settings (snd (importData clk data d)) = settings d"
  by (auto simp: importData_def Let_def split: option.splits prod.splits sum.splits
      dest!: addCategories_frame' addExpenses_frame')

lemma importData_error: "fst (importData clk data d) \<noteq> Inl InvalidBackupFormat"
  by (auto simp: importData_def Let_def split: option.splits prod.splits sum.splits
      dest!: addCategories_error' addExpenses_error')

lemma importData_no_categories:
  "data_categories data = None \<Longrightarrow> categories (snd (importData clk data d)) = []"
  by (auto simp: importData_def Let_def split: option.splits prod.splits sum.splits
      dest!: addExpenses_frame')

lemma importData_no_expenses:
  "data_expenses data = None \<Longrightarrow> expenses (snd (importData clk data d)) = []"
  by (auto simp: importData_def Let_def split: option.splits prod.splits sum.splits
      dest!: addCategories_frame')

text \<open>
  C2, as the code has it. The check for a missing \<open>expenses\<close> or \<open>categories\<close> field is
  in the file import of BackupManager: there a document that lacks either is rejected with
  "Invalid backup file format" and the database is exactly as before. Database.importData
  makes no such check and never fails that way: it clears the expense and category stores
  first and inserts whichever list is there, so that a missing list leaves its store
  empty; with both missing it returns true over two empty stores. It never touches the
  settings.
\<close>

theorem import_of_incomplete_snapshot:
  "(data_expenses data = None \<or> data_categories data = None \<longrightarrow>
      BackupManager_importData clk (Document data) confirmed d = (Inl InvalidBackupFormat, d)) \<and>
   fst (importData clk data d) \<noteq> Inl InvalidBackupFormat \<and>
   settings (snd (importData clk data d)) = settings d \<and>
   (data_categories data = None \<longrightarrow> categories (snd (importData clk data d)) = []) \<and>
   (data_expenses data = None \<longrightarrow> expenses (snd (importData clk data d)) = []) \<and>
   (data_expenses data = None \<and> data_categories data = None \<longrightarrow>
      importData clk data d = (Inr True, d\<lparr>expenses := [], categories := []\<rparr>))"
proof -
  have picker: "data_expenses data = None \<or> data_categories data = None \<longrightarrow>
      BackupManager_importData clk (Document data) confirmed d = (Inl InvalidBackupFormat, d)"
    by (simp add: BackupManager_importData_def)
  have both: "data_expenses data = None \<and> data_categories data = None \<longrightarrow>
      importData clk data d = (Inr True, d\<lparr>expenses := [], categories := []\<rparr>)"
    by (simp add: importData_def)
  from picker both importData_error[of clk data d] importData_settings[of clk data d]
    importData_no_categories[of data clk d] importData_no_expenses[of data clk d]
  show ?thesis
    by blast
qed

theorem import_of_incomplete_snapshot_witness:
  "data_categories expensesOnly = None \<and>
   BackupManager_importData sampleClock (Document expensesOnly) True sampleDb
     = (Inl InvalidBackupFormat, sampleDb) \<and>
   categories (snd (importData sampleClock expensesOnly sampleDb)) = []"
proof -
  have h: "data_categories expensesOnly = None"
    by (simp add: expensesOnly_def)
  from h import_of_incomplete_snapshot
    [where data = expensesOnly and clk = sampleClock and confirmed = True and d = sampleDb]
  show ?thesis
    by blast
qed

text \<open>
  C2 as stated fails for Database.importData: given a document without \<open>categories\<close> it
  returns true, and the two expenses and two categories that were stored are gone.
\<close>

theorem importData_clears_first_counterexample:
  "data_categories expensesOnly = None \<and>
   importData sampleClock expensesOnly sampleDb
     = (Inr True, sampleDb\<lparr>expenses := [], categories := []\<rparr>) \<and>
   expenses sampleDb = [(1, broadband), (2, laptop)] \<and>
   categories sampleDb = [(1, internetCategory), (2, deskCategory)]"
  by (simp add: expensesOnly_def importData_def sampleDb_def)

subsection \<open>Export, then import\<close>

lemma upsert_append:
  "\<forall>j\<in>fst ` set rows. j < k \<Longrightarrow> upsert k r rows = rows @ [(k, r)]"
  by (induction rows) auto

lemma without_stamps_restamp: "without_stamps (restamp clk t rows) = without_stamps rows"
  by (induction rows arbitrary: t) (auto simp: without_stamps_def)

lemma keys_restamp: "map fst (restamp clk t rows) = map fst rows"
  by (induction rows arbitrary: t) auto

lemma addCategories_sorted:
  assumes "sorted_wrt (<) (map fst post)"
    and "\<forall>j\<in>fst ` set (categories d). \<forall>k\<in>fst ` set post. j < k"
    and "list_all (\<lambda>row. category_id (snd row) = Some (fst row)) post"
    and "distinct (map (\<lambda>row. name (snd row)) (categories d @ post))"
  shows "fst (addCategories (map snd post) d) = Inr () \<and>
         categories (snd (addCategories (map snd post) d)) = categories d @ post"
  using assms
proof (induction post arbitrary: d)
  case Nil
  then show ?case by simp
next
  case (Cons row post)
  obtain k c where row: "row = (k, c)" by (cases row)
  from Cons.prems(3) row have cid: "category_id c = Some k" by simp
  from Cons.prems(2) row have below: "\<forall>j\<in>fst ` set (categories d). j < k" by simp
  then have free: "map_of (categories d) k = None"
    by (auto simp: map_of_eq_None_iff)
  from Cons.prems(4) row have "name c \<notin> (\<lambda>row. name (snd row)) ` set (categories d)"
    by simp
  then have "\<not> name_taken (name c) (categories d)"
    by (simp add: name_taken_iff)
  with cid free below have add: "addCategory c d =
      (Inr k, d\<lparr>categories := categories d @ [(k, c)],
                 categoryKeyGen := max (categoryKeyGen d) (k + 1)\<rparr>)"
    by (simp add: addCategory_def categories_add_def upsert_append)
  let ?d1 = "d\<lparr>categories := categories d @ [(k, c)],
                 categoryKeyGen := max (categoryKeyGen d) (k + 1)\<rparr>"
  have "fst (addCategories (map snd post) ?d1) = Inr () \<and>
        categories (snd (addCategories (map snd post) ?d1)) = categories ?d1 @ post"
  proof (rule Cons.IH)
    from Cons.prems(1) show "sorted_wrt (<) (map fst post)" by simp
    from Cons.prems(1,2) row
    show "\<forall>j\<in>fst ` set (categories ?d1). \<forall>k\<in>fst ` set post. j < k" by auto
    from Cons.prems(3) show "list_all (\<lambda>row. category_id (snd row) = Some (fst row)) post"
      by simp
    from Cons.prems(4) row
    show "distinct (map (\<lambda>row. name (snd row)) (categories ?d1 @ post))" by simp
  qed
  with add row show ?case by simp
qed

lemma addExpenses_sorted:
  assumes "sorted_wrt (<) (map fst post)"
    and "\<forall>j\<in>fst ` set (expenses d). \<forall>k\<in>fst ` set post. j < k"
    and "list_all (\<lambda>row. expense_id (snd row) = Some (fst row)) post"
  shows "fst (addExpenses clk (map snd post) d) = Inr () \<and>
         expenses (snd (addExpenses clk (map snd post) d))
           = expenses d @ restamp clk (ticks d) post"
  using assms
proof (induction post arbitrary: d)
  case Nil
  then show ?case by simp
next
  case (Cons row post)
  obtain k e where row: "row = (k, e)" by (cases row)
  let ?e = "e\<lparr>createdAt := Some (clk (ticks d)), updatedAt := Some (clk (Suc (ticks d)))\<rparr>"
  let ?d1 = "d\<lparr>ticks := Suc (Suc (ticks d)), expenses := expenses d @ [(k, ?e)],
               expenseKeyGen := max (expenseKeyGen d) (k + 1)\<rparr>"
  from Cons.prems(3) row have eid: "expense_id e = Some k" by simp
  from Cons.prems(2) row have below: "\<forall>j\<in>fst ` set (expenses d). j < k" by simp
  then have free: "map_of (expenses d) k = None"
    by (auto simp: map_of_eq_None_iff)
  from eid free below have add: "addExpense clk e d = (Inr k, ?d1)"
    by (simp add: addExpense_def expenses_add_def new_Date_toISOString_def upsert_append)
  have "fst (addExpenses clk (map snd post) ?d1) = Inr () \<and>
        expenses (snd (addExpenses clk (map snd post) ?d1))
          = expenses ?d1 @ restamp clk (ticks ?d1) post"
  proof (rule Cons.IH)
    from Cons.prems(1) show "sorted_wrt (<) (map fst post)" by simp
    from Cons.prems(1,2) row
    show "\<forall>j\<in>fst ` set (expenses ?d1). \<forall>k\<in>fst ` set post. j < k" by auto
    from Cons.prems(3) show "list_all (\<lambda>row. expense_id (snd row) = Some (fst row)) post"
      by simp
  qed
  with add row show ?case by simp
qed

text \<open>
  C3, as the code has it. On well-formed stores, importing what export returned succeeds
  and leaves the categories exactly as they were, ids included, and the settings
  untouched. The expenses keep their ids, their order and every field but two: import
  inserts through addExpense, which stamps createdAt and updatedAt anew, so the rows
  afterwards are the rows before with those two fields set to the clock readings of the
  import.
\<close>

theorem export_import_round_trip:
  assumes "wf_expenses d" and "wf_categories d"
  shows "fst (roundTrip clk d) = Inr True \<and>
         categories (snd (roundTrip clk d)) = categories d \<and>
         settings (snd (roundTrip clk d)) = settings d \<and>
         expenses (snd (roundTrip clk d)) = restamp clk (Suc (ticks d)) (expenses d) \<and>
         map fst (expenses (snd (roundTrip clk d))) = map fst (expenses d) \<and>
         without_stamps (expenses (snd (roundTrip clk d))) = without_stamps (expenses d)"
proof -
  let ?d2 = "d\<lparr>ticks := Suc (ticks d), expenses := [], categories := []\<rparr>"
  have cats: "fst (addCategories (map snd (categories d)) ?d2) = Inr () \<and>
      categories (snd (addCategories (map snd (categories d)) ?d2))
        = categories ?d2 @ categories d"
    using assms(2)
    by (intro addCategories_sorted)
       (simp_all add: wf_categories_def sorted_keys_def list_all_iff)
  obtain d3 where d3: "addCategories (map snd (categories d)) ?d2 = (Inr (), d3)"
    using cats by (cases "addCategories (map snd (categories d)) ?d2") auto
  with cats have c3: "categories d3 = categories d" by simp
  from addCategories_frame'[OF d3]
  have f3: "expenses d3 = [] \<and> settings d3 = settings d \<and> ticks d3 = Suc (ticks d)"
    by simp
  have exps: "fst (addExpenses clk (map snd (expenses d)) d3) = Inr () \<and>
      expenses (snd (addExpenses clk (map snd (expenses d)) d3))
        = expenses d3 @ restamp clk (ticks d3) (expenses d)"
    using assms(1) f3
    by (intro addExpenses_sorted) (simp_all add: wf_expenses_def sorted_keys_def)
  obtain d4 where d4: "addExpenses clk (map snd (expenses d)) d3 = (Inr (), d4)"
    using exps by (cases "addExpenses clk (map snd (expenses d)) d3") auto
  with exps f3 have e4: "expenses d4 = restamp clk (Suc (ticks d)) (expenses d)"
    by simp
  from addExpenses_frame'[OF d4] c3 f3
  have f4: "categories d4 = categories d \<and> settings d4 = settings d"
    by simp
  have run: "roundTrip clk d = (Inr True, d4)"
    using d3 d4
    by (simp add: roundTrip_def exportData_def importData_def new_Date_toISOString_def
        getAllExpenses_def getAllCategories_def Let_def)
  with e4 f4 show ?thesis
    by (simp add: keys_restamp without_stamps_restamp)
qed

theorem export_import_round_trip_witness:
  "wf_expenses sampleDb \<and> wf_categories sampleDb \<and>
   fst (roundTrip sampleClock sampleDb) = Inr True \<and>
   categories (snd (roundTrip sampleClock sampleDb)) = categories sampleDb \<and>
   map fst (expenses (snd (roundTrip sampleClock sampleDb))) = [1, 2]"
proof -
  have we: "wf_expenses sampleDb"
    by (simp add: wf_expenses_def sampleDb_def sorted_keys_def broadband_def laptop_def)
  have wc: "wf_categories sampleDb"
    by (simp add: wf_categories_def sampleDb_def sorted_keys_def internetCategory_def
        deskCategory_def)
  have keys: "map fst (expenses sampleDb) = [1, 2]"
    by (simp add: sampleDb_def)
  from we wc keys export_import_round_trip [OF we wc, of sampleClock] show ?thesis
    by (simp add: keys_restamp)
qed

text \<open>
  C3 as stated fails: the round trip does not leave the expense collection equal. The
  stored createdAt values of January and April come back as the time of the import.
\<close>

theorem round_trip_restamps_counterexample:
  "map_option createdAt (getExpense 1 sampleDb) = Some (Some ''2024-01-15T08:00:00.000Z'') \<and>
   map_option createdAt (getExpense 1 (snd (roundTrip sampleClock sampleDb)))
     = Some (Some ''2024-05-01T10:00:00.000Z'') \<and>
   expenses (snd (roundTrip sampleClock sampleDb)) \<noteq> expenses sampleDb"
proof -
  have run: "map_option createdAt (getExpense 1 (snd (roundTrip sampleClock sampleDb)))
     = Some (Some ''2024-05-01T10:00:00.000Z'')"
    by (simp add: roundTrip_def exportData_def importData_def new_Date_toISOString_def
        getAllExpenses_def getAllCategories_def Let_def sampleDb_def addCategory_def
        categories_add_def name_taken_def internetCategory_def deskCategory_def
        addExpense_def expenses_add_def broadband_def laptop_def sampleClock_def
        getExpense_def)
  have before: "map_option createdAt (getExpense 1 sampleDb)
     = Some (Some ''2024-01-15T08:00:00.000Z'')"
    by (simp add: getExpense_def sampleDb_def broadband_def)
  from run before
  have "getExpense 1 (snd (roundTrip sampleClock sampleDb)) \<noteq> getExpense 1 sampleDb"
    by auto
  then have "expenses (snd (roundTrip sampleClock sampleDb)) \<noteq> expenses sampleDb"
    by (auto simp: getExpense_def)
  with run before show ?thesis
    by blast
qed

subsection \<open>Filtering\<close>

lemma parse_first_days:
  "parse_iso_date ''2024-04-01'' = Some (2024, 4, 1)"
  "parse_iso_date ''2024-01-01'' = Some (2024, 1, 1)"
  by (simp_all add: parse_iso_date_def digit_val_def daysInMonth_def isLeapYear_def)

lemma new_Date_first_days_west:
  "new_Date (- 300) (Some ''2024-04-01'')
     = Some \<lparr>fullYear = 2024, monthIndex = 2, dayOfMonth = 31, msOfDay = 68400000\<rparr>"
  "new_Date (- 300) (Some ''2024-01-01'')
     = Some \<lparr>fullYear = 2023, monthIndex = 11, dayOfMonth = 31, msOfDay = 68400000\<rparr>"
  by (simp_all add: new_Date_def parse_first_days localOfUtcMidnight_def previousDay_def
      daysInMonth_def)

lemma new_Date_first_day_east:
  "new_Date 120 (Some ''2024-04-01'')
     = Some \<lparr>fullYear = 2024, monthIndex = 3, dayOfMonth = 1, msOfDay = 7200000\<rparr>"
  by (simp add: new_Date_def parse_first_days localOfUtcMidnight_def)

text \<open>
  C5, where the code departs from it. The claim is about calendar dates: 1 April 2024 has
  month index 3, which quarter 1 does not cover and quarter 2 does, and 1 January 2024 is
  of the year 2024. The code reads year and month off \<^verbatim>\<open>new Date(datePaid)\<close> with the
  local-time getters; that Date is midnight UTC, which on a host five hours west of UTC is
  the evening of the day before. There, whatever the lower-casing function, the filter of
  year 2024 and quarter 1 keeps the expense dated 2024-04-01, the filter of year 2024 and
  quarter 2 drops it, and the filter of year 2024 drops the expense dated 2024-01-01. On a
  host two hours east of UTC quarter 1 drops the expense dated 2024-04-01, as the claim
  says.
\<close>

theorem filterExpenses_quarter_west_of_utc:
  "calendar_date aprilFirst = Some (2024, 4, 1) \<and>
   calendar_monthIndex aprilFirst = Some 3 \<and>
   \<not> quarter_covers 1 3 \<and> quarter_covers 2 3 \<and>
   filterExpenses toLowerCase (- 300)
     (defaultFilter\<lparr>filter_year := Some 2024, filter_quarter := Some 1\<rparr>) [aprilFirst]
     = [aprilFirst] \<and>
   filterExpenses toLowerCase (- 300)
     (defaultFilter\<lparr>filter_year := Some 2024, filter_quarter := Some 2\<rparr>) [aprilFirst]
     = [] \<and>
   calendar_date newYearsDay = Some (2024, 1, 1) \<and>
   filterExpenses toLowerCase (- 300) (defaultFilter\<lparr>filter_year := Some 2024\<rparr>) [newYearsDay]
     = [] \<and>
   filterExpenses toLowerCase 120
     (defaultFilter\<lparr>filter_year := Some 2024, filter_quarter := Some 1\<rparr>) [aprilFirst]
     = []"
proof -
  have cal: "calendar_date aprilFirst = Some (2024, 4, 1)"
    "calendar_date newYearsDay = Some (2024, 1, 1)"
    by (simp_all add: calendar_date_def aprilFirst_def newYearsDay_def parse_first_days)
  have idx: "calendar_monthIndex aprilFirst = Some 3"
    by (simp add: calendar_monthIndex_def cal)
  have q: "\<not> quarter_covers 1 3" "quarter_covers 2 3"
    by (simp_all add: quarter_covers_def)
  have west1: "filterExpenses toLowerCase (- 300)
     (defaultFilter\<lparr>filter_year := Some 2024, filter_quarter := Some 1\<rparr>) [aprilFirst]
     = [aprilFirst]"
    by (simp add: filterExpenses_def filterCallback_def category_rejects_def date_rejects_def
        search_rejects_def defaultFilter_def aprilFirst_def new_Date_first_days_west
        getFullYear_def getMonth_def strict_neq_def)
  have west2: "filterExpenses toLowerCase (- 300)
     (defaultFilter\<lparr>filter_year := Some 2024, filter_quarter := Some 2\<rparr>) [aprilFirst]
     = []"
    by (simp add: filterExpenses_def filterCallback_def category_rejects_def date_rejects_def
        search_rejects_def defaultFilter_def aprilFirst_def new_Date_first_days_west
        getFullYear_def getMonth_def strict_neq_def)
  have west3: "filterExpenses toLowerCase (- 300) (defaultFilter\<lparr>filter_year := Some 2024\<rparr>)
     [newYearsDay] = []"
    by (simp add: filterExpenses_def filterCallback_def category_rejects_def date_rejects_def
        search_rejects_def defaultFilter_def newYearsDay_def new_Date_first_days_west
        getFullYear_def getMonth_def strict_neq_def)
  have east: "filterExpenses toLowerCase 120
     (defaultFilter\<lparr>filter_year := Some 2024, filter_quarter := Some 1\<rparr>) [aprilFirst]
     = []"
    by (simp add: filterExpenses_def filterCallback_def category_rejects_def date_rejects_def
        search_rejects_def defaultFilter_def aprilFirst_def new_Date_first_day_east
        getFullYear_def getMonth_def strict_neq_def)
  from cal idx q west1 west2 west3 east show ?thesis
    by blast
qed

subsection \<open>Monthly trend\<close>










subsection \<open>Default categories\<close>














subsection \<open>Well-formedness is an invariant\<close>

text \<open>
  The stores of a fresh database are well-formed; addExpense, updateExpense and
  deleteExpense keep the expense store well-formed, and addCategory, a loop of them and
  deleteCategory keep the categories store well-formed.
\<close>

lemma set_upsert_fresh: "k \<notin> fst ` set rows \<Longrightarrow> set (upsert k r rows) = insert (k, r) (set rows)"
  by (induction rows) (auto split: if_splits)

lemma sorted_keys_upsert:
  "sorted_keys rows \<Longrightarrow> sorted_keys (upsert k r rows)"
  unfolding sorted_keys_def
proof (induction rows)
  case Nil
  then show ?case by simp
next
  case (Cons row rows)
  obtain j x where row: "row = (j, x)" by (cases row)
  from Cons.prems row have tl: "sorted_wrt (<) (map fst rows)"
    and hd: "\<forall>i\<in>fst ` set rows. j < i"
    by auto
  show ?case
  proof (cases "k = j \<or> k < j")
    case True
    with Cons.prems row hd show ?thesis by auto
  next
    case False
    with hd have "\<forall>i\<in>fst ` set (upsert k r rows). j < i"
      by (auto simp: keys_upsert)
    with False row Cons.IH[OF tl] show ?thesis
      by auto
  qed
qed

lemma distinct_names_upsert:
  assumes "k \<notin> fst ` set rows" and "f (k, r) \<notin> f ` set rows" and "distinct (map f rows)"
  shows "distinct (map f (upsert k r rows))"
  using assms
proof (induction rows)
  case Nil
  then show ?case by simp
next
  case (Cons row rows)
  obtain j x where row: "row = (j, x)" by (cases row)
  from Cons.prems row have fresh: "k \<notin> fst ` set rows" and kj: "k \<noteq> j"
    by auto
  from Cons.prems row set_upsert_fresh[OF fresh, of r] Cons.IH show ?case
    by (cases "k < j") auto
qed

lemma set_delete_key: "set (delete_key k rows) \<subseteq> set rows"
  by (auto simp: delete_key_def)

lemma sorted_keys_delete: "sorted_keys rows \<Longrightarrow> sorted_keys (delete_key k rows)"
proof -
  assume "sorted_keys rows"
  then have "sorted_wrt (\<lambda>a b. fst a < fst b) rows"
    by (simp add: sorted_keys_def sorted_wrt_map)
  then have "sorted_wrt (\<lambda>a b. fst a < fst b) (filter (\<lambda>row. fst row \<noteq> k) rows)"
    by (rule sorted_wrt_filter)
  then show ?thesis
    by (simp add: sorted_keys_def delete_key_def sorted_wrt_map)
qed

lemma distinct_delete_key: "distinct (map f rows) \<Longrightarrow> distinct (map f (delete_key k rows))"
  by (simp add: delete_key_def distinct_map_filter)

lemma category_id_same: "category_id c = Some k \<Longrightarrow> c\<lparr>category_id := Some k\<rparr> = c"
  by (cases c) simp

lemma wf_categories_emptyDb: "wf_categories emptyDb"
  by (simp add: wf_categories_def emptyDb_def sorted_keys_def)

lemma wf_categories_addCategory:
  assumes "wf_categories d"
  shows "wf_categories (snd (addCategory c d))"
proof (cases "fst (addCategory c d)")
  case (Inl err)
  with assms show ?thesis
    by (auto simp: addCategory_def categories_add_def Let_def split: option.splits if_splits)
next
  case (Inr k)
  let ?c = "c\<lparr>category_id := Some k\<rparr>"
  from Inr have free: "k \<notin> fst ` set (categories d)" and new: "\<not> name_taken (name c) (categories d)"
    and rows: "categories (snd (addCategory c d)) = upsert k ?c (categories d)"
    and gen: "k < categoryKeyGen (snd (addCategory c d))"
      "categoryKeyGen d \<le> categoryKeyGen (snd (addCategory c d))"
    by (auto simp: addCategory_def categories_add_def Let_def map_of_eq_None_iff
        category_id_same split: option.splits if_splits)
  have s: "sorted_keys (upsert k ?c (categories d))"
    using assms by (simp add: wf_categories_def sorted_keys_upsert)
  have n: "distinct (map (\<lambda>row. name (snd row)) (upsert k ?c (categories d)))"
    using assms new free
    by (intro distinct_names_upsert) (simp_all add: wf_categories_def name_taken_iff)
  have i: "list_all (\<lambda>row. category_id (snd row) = Some (fst row) \<and>
        fst row < categoryKeyGen (snd (addCategory c d))) (upsert k ?c (categories d))"
    using assms gen free
    by (auto simp: list_all_iff set_upsert_fresh wf_categories_def)
  from s n i rows show ?thesis
    by (simp add: wf_categories_def)
qed

lemma wf_categories_deleteCategory:
  assumes "wf_categories d"
  shows "wf_categories (snd (deleteCategory k d))"
  using assms set_delete_key[of k "categories d"]
  by (auto simp: wf_categories_def deleteCategory_def sorted_keys_delete list_all_iff
      distinct_delete_key)

lemma expense_id_same: "expense_id e = Some k \<Longrightarrow> e\<lparr>expense_id := Some k\<rparr> = e"
  by (cases e) simp

lemma set_upsert_subset: "set (upsert k r rows) \<subseteq> insert (k, r) (set rows)"
  by (induction rows) (auto split: if_splits)

lemma wf_expenses_emptyDb: "wf_expenses emptyDb"
  by (simp add: wf_expenses_def emptyDb_def sorted_keys_def)

lemma wf_expenses_put:
  assumes "wf_expenses d"
  shows "wf_expenses (snd (expenses_put v d))"
proof -
  have "\<exists>k. expenses (snd (expenses_put v d))
      = upsert k (v\<lparr>expense_id := Some k\<rparr>) (expenses d)"
  proof (cases "expense_id v")
    case None
    then show ?thesis
      by (auto simp: expenses_put_def Let_def intro!: exI[of _ "expenseKeyGen d"])
  next
    case (Some k)
    have "v\<lparr>expense_id := Some k\<rparr> = v"
      using Some by (rule expense_id_same)
    then have "upsert k v (expenses d) = upsert k (v\<lparr>expense_id := Some k\<rparr>) (expenses d)"
      by (rule arg_cong[where f = "\<lambda>x. upsert k x (expenses d)", symmetric])
    with Some show ?thesis
      by (auto simp: expenses_put_def intro!: exI[of _ k])
  qed
  then obtain k where rows: "expenses (snd (expenses_put v d))
      = upsert k (v\<lparr>expense_id := Some k\<rparr>) (expenses d)"
    by blast
  from assms set_upsert_subset[of k "v\<lparr>expense_id := Some k\<rparr>" "expenses d"]
  have "list_all (\<lambda>row. expense_id (snd row) = Some (fst row))
      (upsert k (v\<lparr>expense_id := Some k\<rparr>) (expenses d))"
    by (auto simp: wf_expenses_def list_all_iff)
  with assms rows show ?thesis
    by (simp add: wf_expenses_def sorted_keys_upsert)
qed

lemma wf_expenses_add:
  assumes "wf_expenses d"
  shows "wf_expenses (snd (expenses_add v d))"
proof (cases "fst (expenses_add v d)")
  case (Inl err)
  with assms show ?thesis
    by (auto simp: expenses_add_def Let_def split: option.splits if_splits)
next
  case (Inr k)
  then have "expenses_add v d = expenses_put v d"
    by (auto simp: expenses_add_def expenses_put_def Let_def split: option.splits if_splits)
  with wf_expenses_put[OF assms, of v] show ?thesis
    by simp
qed

lemma wf_expenses_ticks: "wf_expenses (d\<lparr>ticks := n\<rparr>) = wf_expenses d"
  by (simp add: wf_expenses_def)

lemma wf_expenses_addExpense:
  "wf_expenses d \<Longrightarrow> wf_expenses (snd (addExpense clk e d))"
  by (simp add: addExpense_def new_Date_toISOString_def Let_def wf_expenses_add wf_expenses_ticks)

lemma wf_expenses_updateExpense:
  assumes "wf_expenses d"
  shows "wf_expenses (snd (updateExpense clk k updates d))"
proof (cases "getExpense k d")
  case None
  with assms show ?thesis
    by (simp add: updateExpense_def)
next
  case (Some e)
  let ?d1 = "d\<lparr>ticks := Suc (ticks d)\<rparr>"
  let ?u = "(spread e updates)\<lparr>expense_id := Some k, updatedAt := Some (clk (ticks d))\<rparr>"
  from assms have "wf_expenses ?d1"
    by (simp add: wf_expenses_ticks)
  from wf_expenses_put[OF this, of ?u] Some show ?thesis
    by (cases "expenses_put ?u ?d1")
       (auto simp: updateExpense_def new_Date_toISOString_def Let_def split: sum.splits)
qed

lemma wf_expenses_deleteExpense:
  assumes "wf_expenses d"
  shows "wf_expenses (snd (deleteExpense k d))"
  using assms set_delete_key[of k "expenses d"]
  by (auto simp: wf_expenses_def deleteExpense_def sorted_keys_delete list_all_iff)

lemma wf_categories_addCategories:
  "wf_categories d \<Longrightarrow> wf_categories (snd (addCategories cs d))"
proof (induction cs arbitrary: d)
  case Nil
  then show ?case by simp
next
  case (Cons c cs)
  from wf_categories_addCategory[OF Cons.prems, of c] Cons.IH[of "snd (addCategory c d)"]
  show ?case
    by (cases "addCategory c d"; cases "fst (addCategory c d)") auto
qed

end
